theory Spec2Isabelle
  imports Main
begin

section \<open>The state diagram (struct StateDiagram, dfa.cpp lines 16-78)\<close>

text \<open>
  Failures of the C++ program, as values. \<open>OutOfBounds\<close> stands for an unchecked
  \<open>operator[]\<close> access outside a \<open>std::array\<close> or \<open>std::vector\<close> (undefined behaviour in
  C++: the program has no defined result from there on). \<open>InvalidArgument\<close> and
  \<open>StoiOutOfRange\<close> are the two exceptions of \<open>std::stoi\<close>, which nothing in the program
  catches.
\<close>

datatype error = OutOfBounds | InvalidArgument | StoiOutOfRange

definition MAXVERT :: int where
  "MAXVERT = 1000"

text \<open>
  \<open>std::array<T, MAXVERT+1>\<close> has the valid indices \<open>0 .. MAXVERT\<close>. An \<open>int\<close> index is
  converted to \<open>size_t\<close>, so a negative index is out of range too.
\<close>

definition in_bounds :: "int \<Rightarrow> bool" where
  "in_bounds index = (0 \<le> index \<and> index \<le> MAXVERT)"

text \<open>
  The two arrays are functions of the index; only the values at indices within
  \<open>0 .. MAXVERT\<close> are ever read or written, every access going through \<open>in_bounds\<close>.
  An adjacency list is a \<open>std::vector<std::pair<int, int>>\<close>: \<open>first\<close> is the edge weight
  (the symbol), \<open>second\<close> the target state.
\<close>

record StateDiagram =
  states :: "int \<Rightarrow> (int \<times> int) list"
  degree :: "int \<Rightarrow> int"
  nvertices :: int
  nedges :: int

text \<open>
  The constructor sets the two counters to zero and default-constructs the vectors
  (empty); the elements of \<open>degree\<close> are left indeterminate, so their initial contents
  are a parameter.
\<close>

definition StateDiagram_new :: "(int \<Rightarrow> int) \<Rightarrow> StateDiagram" where
  "StateDiagram_new degree0 =
     \<lparr>states = (\<lambda>_. []), degree = degree0, nvertices = 0, nedges = 0\<rparr>"

definition getState :: "StateDiagram \<Rightarrow> int \<Rightarrow> error + (int \<times> int) list" where
  "getState sd index =
     (if in_bounds index then Inr (states sd index) else Inl OutOfBounds)"

definition insertEdge :: "StateDiagram \<Rightarrow> int \<Rightarrow> int \<Rightarrow> int \<Rightarrow> error + StateDiagram" where
  "insertEdge sd state_no weight y =
     (let pair = (weight, y) in
      if in_bounds state_no
      then Inr (sd\<lparr>states := (states sd)(state_no := states sd state_no @ [pair])\<rparr>)
      else Inl OutOfBounds)"

section \<open>The automaton (class DFA, dfa.cpp lines 80-171)\<close>

record DFA =
  state_diagram :: StateDiagram
  q :: int
  f :: int

definition setInitialState :: "DFA \<Rightarrow> int \<Rightarrow> DFA" where
  "setInitialState this init_state = this\<lparr>q := init_state\<rparr>"

definition setFinalState :: "DFA \<Rightarrow> int \<Rightarrow> DFA" where
  "setFinalState this final_state = this\<lparr>f := final_state\<rparr>"

definition setStateDiagram :: "DFA \<Rightarrow> StateDiagram \<Rightarrow> DFA" where
  "setStateDiagram this diag = this\<lparr>state_diagram := diag\<rparr>"

text \<open>
  \<open>int(symbol)\<close> for a \<open>char\<close>: the byte read as a signed value, as on the usual targets
  where plain \<open>char\<close> is signed. ASCII characters keep their code.
\<close>

definition symbol_val :: "char \<Rightarrow> int" where
  "symbol_val symbol = (let n = of_char symbol in if n < 128 then n else n - 256)"

text \<open>
  The inner loop of \<open>execute\<close> (lines 133-138) over the rest of the adjacency list:
  the first pair whose weight is the symbol and whose state differs from the current
  state becomes the current state and ends the loop; when the list is exhausted the
  current state is as it was.
\<close>

fun execute_scan :: "int \<Rightarrow> int \<Rightarrow> (int \<times> int) list \<Rightarrow> int" where
  "execute_scan sv current_state [] = current_state"
| "execute_scan sv current_state (state # rest) =
     (if fst state = sv \<and> snd state \<noteq> current_state then snd state
      else execute_scan sv current_state rest)"

text \<open>
  The outer loop (lines 129-139) over the rest of the input. The object is threaded
  through, with the local \<open>current_state\<close>; the result is the object and the current
  state after the last symbol.
\<close>

fun execute_loop :: "DFA \<Rightarrow> int \<Rightarrow> string \<Rightarrow> error + (DFA \<times> int)" where
  "execute_loop this current_state [] = Inr (this, current_state)"
| "execute_loop this current_state (symbol # rest) =
     (case getState (state_diagram this) current_state of
        Inl e \<Rightarrow> Inl e
      | Inr curr_adj_list \<Rightarrow>
          execute_loop this (execute_scan (symbol_val symbol) current_state curr_adj_list) rest)"

text \<open>\<open>execute\<close> returns the flag, with the object as the call leaves it.\<close>

definition execute :: "DFA \<Rightarrow> string \<Rightarrow> error + (bool \<times> DFA)" where
  "execute this input =
     (case execute_loop this (q this) input of
        Inl e \<Rightarrow> Inl e
      | Inr (this', current_state) \<Rightarrow>
          Inr ((if current_state = f this' then True else False), this'))"

section \<open>Text utilities (dfa.cpp lines 173-222)\<close>

text \<open>
  Sequencing of steps that may fail: the first failure ends the computation, as an
  uncaught exception or an undefined access does.
\<close>

definition and_then :: "error + 'a \<Rightarrow> ('a \<Rightarrow> error + 'b) \<Rightarrow> error + 'b" where
  "and_then r k = (case r of Inl e \<Rightarrow> Inl e | Inr v \<Rightarrow> k v)"

text \<open>\<open>v[i]\<close> on a \<open>std::vector\<close>: unchecked, undefined outside \<open>0 .. size - 1\<close>.\<close>

definition subscript :: "'a list \<Rightarrow> nat \<Rightarrow> error + 'a" where
  "subscript v i = (if i < length v then Inr (v ! i) else Inl OutOfBounds)"

text \<open>
  \<open>split\<close> pushes one item per successful \<open>std::getline(ss, item, delim)\<close>. A call
  succeeds when it extracts the delimiter or at least one character; at the end of the
  stream with nothing extracted it fails and the loop ends. So a final empty item is
  dropped and the empty string has no items. \<open>split_items\<close> runs over the rest of the
  stream with the item read so far.
\<close>

fun split_items :: "string \<Rightarrow> char \<Rightarrow> string \<Rightarrow> string list" where
  "split_items [] delim item = (if item = [] then [] else [item])"
| "split_items (c # ss) delim item =
     (if c = delim then item # split_items ss delim [] else split_items ss delim (item @ [c]))"

definition split :: "string \<Rightarrow> char \<Rightarrow> string list" where
  "split s delim = split_items s delim []"

text \<open>
  \<open>std::isspace\<close> in the "C" locale: space, and the controls 9 to 13; no byte above 127
  is white space.
\<close>

definition isspace :: "char \<Rightarrow> bool" where
  "isspace ch = (ch = CHR '' '' \<or> (9 \<le> (of_char ch :: nat) \<and> (of_char ch :: nat) \<le> 13))"

definition isdigit :: "char \<Rightarrow> bool" where
  "isdigit ch = (48 \<le> (of_char ch :: nat) \<and> (of_char ch :: nat) \<le> 57)"

definition ltrim :: "string \<Rightarrow> string" where
  "ltrim s = dropWhile isspace s"

definition rtrim :: "string \<Rightarrow> string" where
  "rtrim s = rev (dropWhile isspace (rev s))"

definition trim :: "string \<Rightarrow> string" where
  "trim s = rtrim (ltrim s)"

definition trim_copy :: "string \<Rightarrow> string" where
  "trim_copy s = trim s"

definition INT_MAX :: int where
  "INT_MAX = 2147483647"

definition INT_MIN :: int where
  "INT_MIN = - 2147483648"

definition digits_val :: "string \<Rightarrow> int" where
  "digits_val ds = foldl (\<lambda>acc ch. 10 * acc + (of_char ch - 48)) 0 ds"

text \<open>
  \<open>std::stoi(str)\<close>, base 10: leading white space is skipped, one sign is accepted, the
  longest run of digits is converted and whatever follows is ignored. No digit:
  \<open>std::invalid_argument\<close>. A value outside the 32-bit \<open>int\<close>: \<open>std::out_of_range\<close>.
\<close>

definition stoi :: "string \<Rightarrow> error + int" where
  "stoi str =
     (let s1 = dropWhile isspace str;
          negative = (case s1 of [] \<Rightarrow> False | c # _ \<Rightarrow> c = CHR ''-'');
          s2 = (case s1 of [] \<Rightarrow> []
                | c # cs \<Rightarrow> if c = CHR ''-'' \<or> c = CHR ''+'' then cs else s1);
          ds = takeWhile isdigit s2;
          v = (if negative then - digits_val ds else digits_val ds)
      in if ds = [] then Inl InvalidArgument
         else if v < INT_MIN \<or> INT_MAX < v then Inl StoiOutOfRange
         else Inr v)"

section \<open>The builder (build_dfa_from_file, dfa.cpp lines 224-305)\<close>

text \<open>
  The locals of \<open>build_dfa_from_file\<close> that the loop over the lines changes.
\<close>

record build_state =
  bs_state_diagram :: StateDiagram
  bs_dfa :: DFA
  bs_counter :: int
  bs_nvertices :: int
  bs_nedges :: int

text \<open>
  What the function reads without having initialised it: the elements of \<open>degree\<close>, the
  members \<open>q\<close> and \<open>f\<close> of the default-constructed \<open>DFA\<close>, and the locals \<open>nvertices\<close> and
  \<open>nedges\<close> (declared at line 255, incremented at lines 280 and 292). Their initial
  values are parameters of the model. The two counters are only counted up and stored;
  they are integers without a bound here.
\<close>

record indeterminate =
  ind_degree :: "int \<Rightarrow> int"
  ind_q :: int
  ind_f :: int
  ind_nvertices :: int
  ind_nedges :: int

text \<open>\<open>state_diagram.degree[state] = degree\<close> (line 295).\<close>

definition set_degree :: "StateDiagram \<Rightarrow> int \<Rightarrow> int \<Rightarrow> error + StateDiagram" where
  "set_degree sd state deg =
     (if in_bounds state then Inr (sd\<lparr>degree := (degree sd)(state := deg)\<rparr>)
      else Inl OutOfBounds)"

text \<open>
  The body of the loop over the pairs (lines 285-293), on the state diagram, \<open>nedges\<close>
  and the local \<open>degree\<close>.
\<close>

definition build_pair ::
  "int \<Rightarrow> StateDiagram \<times> int \<times> int \<Rightarrow> string \<Rightarrow> error + StateDiagram \<times> int \<times> int" where
  "build_pair state acc pair =
     (case acc of (sd, n_edges, deg) \<Rightarrow>
        let trimmed_pair = trim_copy pair;
            split_pair = split trimmed_pair CHR '' ''
        in and_then (subscript split_pair 0) (\<lambda>s0.
           and_then (stoi s0) (\<lambda>weight.
           and_then (subscript split_pair 1) (\<lambda>s1.
           and_then (stoi s1) (\<lambda>state_no_y.
           and_then (insertEdge sd state weight state_no_y) (\<lambda>sd'.
           Inr (sd', n_edges + 1, deg + 1)))))))"

fun build_pairs ::
  "int \<Rightarrow> StateDiagram \<times> int \<times> int \<Rightarrow> string list \<Rightarrow> error + StateDiagram \<times> int \<times> int" where
  "build_pairs state acc [] = Inr acc"
| "build_pairs state acc (pair # rest) =
     (case build_pair state acc pair of
        Inl e \<Rightarrow> Inl e
      | Inr acc' \<Rightarrow> build_pairs state acc' rest)"

text \<open>
  The body of the loop over the lines (lines 258-297): the first line is the initial
  state, the second the final state, every later line a transition line.
\<close>

definition build_line :: "build_state \<Rightarrow> string \<Rightarrow> error + build_state" where
  "build_line st str =
     (if bs_counter st = 0 then
        and_then (stoi str) (\<lambda>v.
        Inr (st\<lparr>bs_dfa := setInitialState (bs_dfa st) v, bs_counter := bs_counter st + 1\<rparr>))
      else if bs_counter st = 1 then
        and_then (stoi str) (\<lambda>v.
        Inr (st\<lparr>bs_dfa := setFinalState (bs_dfa st) v, bs_counter := bs_counter st + 1\<rparr>))
      else
        let split_at_colon = split str CHR '':'' in
        and_then (subscript split_at_colon 0) (\<lambda>s0.
        and_then (stoi s0) (\<lambda>state.
        and_then (subscript split_at_colon 1) (\<lambda>s1.
        let adj_list_vector = split s1 CHR ''|'' in
        and_then (build_pairs state (bs_state_diagram st, bs_nedges st, 0) adj_list_vector)
          (\<lambda>(sd, n_edges, deg).
        and_then (set_degree sd state deg) (\<lambda>sd'.
        Inr (st\<lparr>bs_state_diagram := sd', bs_nvertices := bs_nvertices st + 1,
                 bs_nedges := n_edges, bs_counter := bs_counter st + 1\<rparr>)))))))"

fun build_lines :: "build_state \<Rightarrow> string list \<Rightarrow> error + build_state" where
  "build_lines st [] = Inr st"
| "build_lines st (str # rest) =
     (case build_line st str of
        Inl e \<Rightarrow> Inl e
      | Inr st' \<Rightarrow> build_lines st' rest)"

definition newline :: char where
  "newline = CHR 0x0A"

text \<open>
  The function on the contents of the file. \<open>while (std::getline(state_file, str))\<close> is
  the loop of \<open>split\<close> with the newline as delimiter; a file that cannot be opened reads
  as the empty contents.
\<close>

definition build_dfa_from_file :: "indeterminate \<Rightarrow> string \<Rightarrow> error + DFA" where
  "build_dfa_from_file ind contents =
     (let st0 = \<lparr>bs_state_diagram = StateDiagram_new (ind_degree ind),
                 bs_dfa = \<lparr>state_diagram = StateDiagram_new (ind_degree ind),
                           q = ind_q ind, f = ind_f ind\<rparr>,
                 bs_counter = 0,
                 bs_nvertices = ind_nvertices ind,
                 bs_nedges = ind_nedges ind\<rparr>
      in and_then (build_lines st0 (split contents newline)) (\<lambda>st.
         Inr (setStateDiagram (bs_dfa st)
                ((bs_state_diagram st)\<lparr>nvertices := bs_nvertices st, nedges := bs_nedges st\<rparr>))))"

section \<open>The evaluation algorithm in the words of the specification\<close>

text \<open>
  The pair taken for a symbol: the first pair of the outgoing list, in insertion order,
  whose symbol is the input symbol and whose target differs from the current state.
\<close>

definition taken :: "int \<Rightarrow> int \<Rightarrow> (int \<times> int) list \<Rightarrow> (int \<times> int) option" where
  "taken s current adj = find (\<lambda>(symb, target). symb = s \<and> target \<noteq> current) adj"

text \<open>The current state is set to the target of the pair taken; with no such pair it stays.\<close>

definition next_state :: "StateDiagram \<Rightarrow> int \<Rightarrow> int \<Rightarrow> int" where
  "next_state sd current s =
     (case taken s current (states sd current) of
        None \<Rightarrow> current
      | Some (symb, target) \<Rightarrow> target)"

text \<open>The state after consuming every symbol of the input, in order.\<close>

definition final_state :: "DFA \<Rightarrow> int \<Rightarrow> string \<Rightarrow> int" where
  "final_state d current input =
     foldl (\<lambda>cur symbol. next_state (state_diagram d) cur (symbol_val symbol)) current input"

text \<open>
  An automaton within the capacity of the table: its initial state and the target of
  every recorded transition are indices of the array.
\<close>

definition within_capacity :: "DFA \<Rightarrow> bool" where
  "within_capacity d =
     (in_bounds (q d) \<and>
      (\<forall>i\<in>{0..MAXVERT}. \<forall>p\<in>set (states (state_diagram d) i). in_bounds (snd p)))"

section \<open>Example automata and descriptions\<close>

text \<open>The automaton of the round-trip scenario, and its description.\<close>

definition roundtrip_diagram :: StateDiagram where
  "roundtrip_diagram =
     \<lparr>states = (\<lambda>_. [])(1 := [(97, 2), (98, 3)], 2 := [(97, 1)], 3 := [(98, 1)]),
      degree = (\<lambda>_. 0)(1 := 2, 2 := 1, 3 := 1),
      nvertices = 3, nedges = 4\<rparr>"

definition roundtrip_dfa :: DFA where
  "roundtrip_dfa = \<lparr>state_diagram = roundtrip_diagram, q = 1, f = 2\<rparr>"

definition zero_init :: indeterminate where
  "zero_init =
     \<lparr>ind_degree = (\<lambda>_. 0), ind_q = 0, ind_f = 0, ind_nvertices = 0, ind_nedges = 0\<rparr>"

definition roundtrip_text :: string where
  "roundtrip_text =
     ''1'' @ [newline] @ ''2'' @ [newline] @ ''1: 97 2 | 98 3'' @ [newline]
     @ ''2: 97 1'' @ [newline] @ ''3: 98 1'' @ [newline]"

text \<open>State 1 with a self-loop on 97 and no other transition on 97.\<close>

definition selfloop_dfa :: DFA where
  "selfloop_dfa =
     \<lparr>state_diagram =
        \<lparr>states = (\<lambda>_. [])(1 := [(97, 1), (98, 2)]), degree = (\<lambda>_. 0)(1 := 2),
         nvertices = 1, nedges = 2\<rparr>,
      q = 1, f = 2\<rparr>"

text \<open>State 1 with a self-loop on 97 followed by a second transition on 97.\<close>

definition selfloop_dup_dfa :: DFA where
  "selfloop_dup_dfa =
     \<lparr>state_diagram =
        \<lparr>states = (\<lambda>_. [])(1 := [(97, 1), (97, 2)]), degree = (\<lambda>_. 0)(1 := 2),
         nvertices = 1, nedges = 2\<rparr>,
      q = 1, f = 2\<rparr>"

text \<open>State 1 with two transitions on 97, neither a self-loop, after one on 98.\<close>

definition ordered_dfa :: DFA where
  "ordered_dfa =
     \<lparr>state_diagram =
        \<lparr>states = (\<lambda>_. [])(1 := [(98, 5), (97, 2), (98, 1), (97, 3)]),
         degree = (\<lambda>_. 0)(1 := 4), nvertices = 1, nedges = 4\<rparr>,
      q = 1, f = 2\<rparr>"

text \<open>A description whose only transition has a target beyond the capacity.\<close>

definition beyond_text :: string where
  "beyond_text = ''1'' @ [newline] @ ''2'' @ [newline] @ ''1: 97 1001'' @ [newline]"

definition beyond_dfa :: DFA where
  "beyond_dfa =
     \<lparr>state_diagram =
        \<lparr>states = (\<lambda>_. [])(1 := [(97, 1001)]), degree = (\<lambda>_. 0)(1 := 1),
         nvertices = 1, nedges = 1\<rparr>,
      q = 1, f = 2\<rparr>"

text \<open>A description whose transition line has no colon.\<close>

definition missing_colon_text :: string where
  "missing_colon_text = ''1'' @ [newline] @ ''2'' @ [newline] @ ''1 97 2'' @ [newline]"

text \<open>A description whose transition leads to an accepting state beyond the capacity.\<close>

definition beyond_accept_text :: string where
  "beyond_accept_text = ''1'' @ [newline] @ ''1001'' @ [newline] @ ''1: 97 1001'' @ [newline]"

definition beyond_accept_dfa :: DFA where
  "beyond_accept_dfa =
     \<lparr>state_diagram =
        \<lparr>states = (\<lambda>_. [])(1 := [(97, 1001)]), degree = (\<lambda>_. 0)(1 := 1),
         nvertices = 1, nedges = 1\<rparr>,
      q = 1, f = 1001\<rparr>"

text \<open>A description without transitions whose initial and accepting state is 1001.\<close>

definition outside_text :: string where
  "outside_text = ''1001'' @ [newline] @ ''1001'' @ [newline]"

definition outside_dfa :: DFA where
  "outside_dfa =
     \<lparr>state_diagram = \<lparr>states = (\<lambda>_. []), degree = (\<lambda>_. 0), nvertices = 0, nedges = 0\<rparr>,
      q = 1001, f = 1001\<rparr>"

section \<open>Lemmas on the two loops of execute\<close>

lemma symbol_val_a: "symbol_val CHR ''a'' = 97"
  by (simp add: symbol_val_def)

lemma symbol_val_b: "symbol_val CHR ''b'' = 98"
  by (simp add: symbol_val_def)

lemma symbol_val_c: "symbol_val CHR ''c'' = 99"
  by (simp add: symbol_val_def)

lemma execute_scan_taken:
  "execute_scan sv cur adj =
     (case taken sv cur adj of None \<Rightarrow> cur | Some (symb, target) \<Rightarrow> target)"
  by (induction adj) (auto simp: taken_def split: prod.splits)

lemma execute_scan_miss:
  "\<forall>p\<in>set adj. \<not> (fst p = sv \<and> snd p \<noteq> cur) \<Longrightarrow> execute_scan sv cur adj = cur"
  by (induction adj) auto

lemma execute_scan_first:
  "\<forall>p\<in>set pre. \<not> (fst p = sv \<and> snd p \<noteq> cur) \<Longrightarrow> t \<noteq> cur \<Longrightarrow>
   execute_scan sv cur (pre @ (sv, t) # post) = t"
  by (induction pre) auto

lemma execute_scan_result:
  "execute_scan sv cur adj = cur \<or> execute_scan sv cur adj \<in> snd ` set adj"
  by (induction adj) auto

text \<open>The loop never changes the object.\<close>

lemma execute_loop_object:
  "execute_loop d cur inp = Inr (d', cur') \<Longrightarrow> d' = d"
  by (induction inp arbitrary: cur) (auto split: sum.splits)

lemma execute_loop_append_aux:
  "execute_loop d cur (s1 @ s2) =
     (case execute_loop d cur s1 of Inl e \<Rightarrow> Inl e | Inr (d', mid) \<Rightarrow> execute_loop d' mid s2)"
  by (induction s1 arbitrary: cur) (auto split: sum.splits)

text \<open>A run that ends normally ends in the state the specification's algorithm gives.\<close>

lemma execute_loop_final_state:
  "execute_loop d cur inp = Inr (d', cur') \<Longrightarrow> cur' = final_state d cur inp"
  by (induction inp arbitrary: cur)
     (auto simp: final_state_def next_state_def execute_scan_taken getState_def
           split: sum.splits if_splits)

lemma final_state_append:
  "final_state d cur (s1 @ s2) = final_state d (final_state d cur s1) s2"
  by (simp add: final_state_def)

text \<open>Within the capacity every lookup is defined, and the run stays within it.\<close>

lemma execute_loop_total:
  assumes "\<forall>i\<in>{0..MAXVERT}. \<forall>p\<in>set (states (state_diagram d) i). in_bounds (snd p)"
  shows "in_bounds cur \<Longrightarrow> \<exists>cur'. execute_loop d cur inp = Inr (d, cur') \<and> in_bounds cur'"
proof (induction inp arbitrary: cur)
  case Nil
  then show ?case by simp
next
  case (Cons c rest)
  let ?nxt = "execute_scan (symbol_val c) cur (states (state_diagram d) cur)"
  have "cur \<in> {0..MAXVERT}" using Cons.prems by (simp add: in_bounds_def)
  with assms have tg: "\<forall>p\<in>set (states (state_diagram d) cur). in_bounds (snd p)" by blast
  have "in_bounds ?nxt"
    using execute_scan_result [of "symbol_val c" cur "states (state_diagram d) cur"] tg Cons.prems
    by auto
  from Cons.IH [OF this] show ?case using Cons.prems by (simp add: getState_def)
qed

lemma execute_Inr:
  "execute d inp = Inr (b, d') \<longleftrightarrow>
     (\<exists>cur. execute_loop d (q d) inp = Inr (d', cur) \<and> b = (cur = f d'))"
proof (cases "execute_loop d (q d) inp")
  case (Inl e)
  then show ?thesis by (simp add: execute_def)
next
  case (Inr r)
  then show ?thesis by (cases r) (auto simp: execute_def)
qed

text \<open>Within the capacity the run is the specification's fold, and stays within it.\<close>

lemma execute_loop_within_capacity:
  assumes "within_capacity d"
  shows "execute_loop d (q d) inp = Inr (d, final_state d (q d) inp) \<and>
         in_bounds (final_state d (q d) inp)"
proof -
  from assms have qb: "in_bounds (q d)"
    and tg: "\<forall>i\<in>{0..MAXVERT}. \<forall>p\<in>set (states (state_diagram d) i). in_bounds (snd p)"
    by (simp_all add: within_capacity_def)
  from execute_loop_total [OF tg qb, of inp]
  obtain cur' where run: "execute_loop d (q d) inp = Inr (d, cur')" and b: "in_bounds cur'"
    by blast
  from execute_loop_final_state [OF run] run b show ?thesis by simp
qed

lemma execute_loop_miss:
  assumes "in_bounds cur"
    and "\<forall>p\<in>set (states (state_diagram d) cur). \<not> (fst p = symbol_val s \<and> snd p \<noteq> cur)"
  shows "execute_loop d cur [s] = Inr (d, cur)"
  using assms execute_scan_miss [of "states (state_diagram d) cur" "symbol_val s" cur]
  by (simp add: getState_def)

lemma insertEdge_appends:
  "insertEdge sd state_no weight y = Inr sd' \<Longrightarrow>
   states sd' state_no = states sd state_no @ [(weight, y)] \<and>
   (\<forall>i. i \<noteq> state_no \<longrightarrow> states sd' i = states sd i)"
  by (auto simp: insertEdge_def split: if_splits)

lemma roundtrip_within_capacity: "within_capacity roundtrip_dfa"
  by (auto simp: within_capacity_def roundtrip_dfa_def roundtrip_diagram_def in_bounds_def
      MAXVERT_def)

lemma execute_roundtrip_a: "execute roundtrip_dfa ''a'' = Inr (True, roundtrip_dfa)"
  by (simp add: execute_def roundtrip_dfa_def roundtrip_diagram_def getState_def
      in_bounds_def MAXVERT_def symbol_val_a)

lemma execute_roundtrip_aa: "execute roundtrip_dfa ''aa'' = Inr (False, roundtrip_dfa)"
  by (simp add: execute_def roundtrip_dfa_def roundtrip_diagram_def getState_def
      in_bounds_def MAXVERT_def symbol_val_a)

section \<open>Lemmas on the builder\<close>

lemma split_items_no_delim:
  "delim \<notin> set s \<Longrightarrow> split_items s delim item = (if item @ s = [] then [] else [item @ s])"
  by (induction s arbitrary: item) auto

lemma split_no_delim:
  "delim \<notin> set s \<Longrightarrow> split s delim = (if s = [] then [] else [s])"
  by (simp add: split_def split_items_no_delim)

text \<open>
  A transition line without a colon: the split has at most one item, so the line ends
  at \<open>split_at_colon[0]\<close> (empty line), in \<open>std::stoi\<close>, or at \<open>split_at_colon[1]\<close>.
\<close>

lemma build_line_no_colon:
  assumes "bs_counter st \<noteq> 0" and "bs_counter st \<noteq> 1" and "CHR '':'' \<notin> set str"
  shows "build_line st str =
           Inl (if str = [] then OutOfBounds
                else case stoi str of Inl e \<Rightarrow> e | Inr state \<Rightarrow> OutOfBounds)"
  using assms
  by (simp add: build_line_def split_no_delim subscript_def and_then_def split: sum.splits)

lemma build_line_counter:
  "build_line st str = Inr st' \<Longrightarrow> bs_counter st' = bs_counter st + 1"
  by (auto simp: build_line_def and_then_def Let_def split: sum.splits if_splits prod.splits)

lemma build_lines_no_colon:
  "i < length lines \<Longrightarrow> 0 \<le> bs_counter st \<Longrightarrow> 2 \<le> bs_counter st + int i \<Longrightarrow>
   CHR '':'' \<notin> set (lines ! i) \<Longrightarrow> \<exists>e. build_lines st lines = Inl e"
proof (induction lines arbitrary: st i)
  case Nil
  then show ?case by simp
next
  case (Cons str rest)
  show ?case
  proof (cases "build_line st str")
    case (Inl e)
    then show ?thesis by simp
  next
    case (Inr st')
    note cnt = build_line_counter [OF Inr]
    show ?thesis
    proof (cases i)
      case 0
      with Cons.prems have "bs_counter st \<noteq> 0" "bs_counter st \<noteq> 1" "CHR '':'' \<notin> set str"
        by simp_all
      from build_line_no_colon [OF this] Inr show ?thesis by simp
    next
      case (Suc j)
      with Cons.prems cnt have "j < length rest" "0 \<le> bs_counter st'"
        "2 \<le> bs_counter st' + int j" "CHR '':'' \<notin> set (rest ! j)"
        by simp_all
      from Cons.IH [OF this] Inr show ?thesis by simp
    qed
  qed
qed

lemmas builder_defs =
  build_dfa_from_file_def zero_init_def newline_def split_def
  build_line_def and_then_def subscript_def stoi_def isspace_def isdigit_def digits_val_def
  INT_MAX_def INT_MIN_def trim_copy_def trim_def ltrim_def rtrim_def build_pair_def
  insertEdge_def in_bounds_def MAXVERT_def set_degree_def StateDiagram_new_def
  setInitialState_def setFinalState_def setStateDiagram_def

text \<open>The builder on the description of the round-trip scenario gives its automaton.\<close>

lemma build_roundtrip: "build_dfa_from_file zero_init roundtrip_text = Inr roundtrip_dfa"
  by (simp add: builder_defs roundtrip_text_def roundtrip_dfa_def roundtrip_diagram_def
      fun_upd_twist)

lemma split_missing_colon_text:
  "split missing_colon_text newline = [''1'', ''2'', ''1 97 2'']"
  by (simp add: missing_colon_text_def split_def newline_def)

section \<open>Evaluation: the step\<close>

text \<open>
  C1 as stated does not hold: a self-loop \<open>(1, 97, 1)\<close> is recorded for state 1, and
  consuming 97 in state 1 still changes the state, because a later pair on the same
  symbol has another target.
\<close>

theorem self_loop_before_duplicate_moves:
  "(symbol_val CHR ''a'', 1) \<in> set (states (state_diagram selfloop_dup_dfa) 1) \<and>
   execute_loop selfloop_dup_dfa 1 ''a'' = Inr (selfloop_dup_dfa, 2)"
  by (simp add: selfloop_dup_dfa_def getState_def in_bounds_def MAXVERT_def symbol_val_a)

text \<open>
  C1, amended. For a current state within the table, consuming one symbol sets the
  current state to the target of the first pair of the state's outgoing list, in
  insertion order, whose symbol is the input symbol and whose target differs from the
  current state, and leaves it unchanged when there is no such pair. In particular, with
  an explicit self-loop \<open>(q, s, q)\<close> and no transition from q on s to another state,
  consuming s in state q does not change the current state.
\<close>

theorem self_loop_not_taken:
  assumes "in_bounds cur"
  shows "execute_loop d cur [s] =
           Inr (d, case taken (symbol_val s) cur (states (state_diagram d) cur) of
                     None \<Rightarrow> cur
                   | Some (symb, target) \<Rightarrow> target) \<and>
         ((symbol_val s, cur) \<in> set (states (state_diagram d) cur) \<and>
          (\<forall>p\<in>set (states (state_diagram d) cur). fst p = symbol_val s \<longrightarrow> snd p = cur)
          \<longrightarrow> execute_loop d cur [s] = Inr (d, cur))"
proof -
  have step: "execute_loop d cur [s] =
      Inr (d, execute_scan (symbol_val s) cur (states (state_diagram d) cur))"
    using assms by (simp add: getState_def)
  show ?thesis
    using step execute_scan_miss [of "states (state_diagram d) cur" "symbol_val s" cur]
    by (auto simp: execute_scan_taken)
qed

theorem self_loop_not_taken_witness:
  "in_bounds 1 \<and> (symbol_val CHR ''a'', 1) \<in> set (states (state_diagram selfloop_dfa) 1) \<and>
   execute_loop selfloop_dfa 1 ''a'' = Inr (selfloop_dfa, 1)"
proof -
  have h: "in_bounds 1" by (simp add: in_bounds_def MAXVERT_def)
  have m: "(symbol_val CHR ''a'', 1) \<in> set (states (state_diagram selfloop_dfa) 1)"
    by (simp add: selfloop_dfa_def symbol_val_a)
  have a: "\<forall>p\<in>set (states (state_diagram selfloop_dfa) 1).
      fst p = symbol_val CHR ''a'' \<longrightarrow> snd p = 1"
    by (simp add: selfloop_dfa_def symbol_val_a)
  from self_loop_not_taken [OF h, of selfloop_dfa "CHR ''a''"] m a h show ?thesis by blast
qed

text \<open>
  C5 as stated does not hold for a state beyond the capacity of the table: the
  description with the two lines 1001 and 1001 is built, state 1001 has no pair at all,
  and the one-symbol input looks up \<open>states[1001]\<close>, outside the array, instead of
  leaving the state at 1001 and accepting.
\<close>

theorem stall_beyond_capacity:
  "build_dfa_from_file zero_init outside_text = Inr outside_dfa \<and>
   states (state_diagram outside_dfa) (q outside_dfa) = [] \<and>
   q outside_dfa = f outside_dfa \<and>
   execute outside_dfa ''c'' = Inl OutOfBounds"
proof -
  have "build_dfa_from_file zero_init outside_text = Inr outside_dfa"
    by (simp add: builder_defs outside_text_def outside_dfa_def)
  moreover have "execute outside_dfa ''c'' = Inl OutOfBounds"
    by (simp add: execute_def outside_dfa_def getState_def in_bounds_def MAXVERT_def)
  ultimately show ?thesis by (simp add: outside_dfa_def)
qed

text \<open>
  C5, amended. Stall-on-miss: for every initial state q within the capacity of the
  table (\<open>0 .. MAXVERT\<close>) whose outgoing list has no pair that is taken for the symbol
  s, the run on the one-symbol input s ends in q, and \<open>execute\<close> returns whether q is
  the accepting state.
\<close>

theorem stall_on_miss:
  assumes "in_bounds (q d)"
    and "\<forall>p\<in>set (states (state_diagram d) (q d)). \<not> (fst p = symbol_val s \<and> snd p \<noteq> q d)"
  shows "execute_loop d (q d) [s] = Inr (d, q d) \<and> execute d [s] = Inr (q d = f d, d)"
  using assms execute_scan_miss [of "states (state_diagram d) (q d)" "symbol_val s" "q d"]
  by (simp add: execute_def getState_def)

theorem stall_on_miss_witness:
  "in_bounds (q roundtrip_dfa) \<and>
   execute_loop roundtrip_dfa 1 ''c'' = Inr (roundtrip_dfa, 1) \<and>
   execute roundtrip_dfa ''c'' = Inr (False, roundtrip_dfa)"
proof -
  have h: "in_bounds (q roundtrip_dfa)"
    by (simp add: roundtrip_dfa_def in_bounds_def MAXVERT_def)
  have m: "\<forall>p\<in>set (states (state_diagram roundtrip_dfa) (q roundtrip_dfa)).
      \<not> (fst p = symbol_val CHR ''c'' \<and> snd p \<noteq> q roundtrip_dfa)"
    by (simp add: roundtrip_dfa_def roundtrip_diagram_def symbol_val_c)
  have "q roundtrip_dfa = 1" and "f roundtrip_dfa = 2" by (simp_all add: roundtrip_dfa_def)
  with stall_on_miss [OF h m] h show ?thesis by simp
qed

text \<open>
  C6 as stated does not hold: after inserting \<open>(3, 98, 3)\<close> and then \<open>(3, 98, 4)\<close>, two
  transitions from state 3 on the same symbol with different targets, a step on 98 from
  state 3 takes the one inserted second.
\<close>

theorem first_inserted_self_loop_skipped:
  "insertEdge (StateDiagram_new (\<lambda>_. 0)) 3 98 3 =
     Inr ((StateDiagram_new (\<lambda>_. 0))\<lparr>states := (\<lambda>_. [])(3 := [(98, 3)])\<rparr>) \<and>
   insertEdge ((StateDiagram_new (\<lambda>_. 0))\<lparr>states := (\<lambda>_. [])(3 := [(98, 3)])\<rparr>) 3 98 4 =
     Inr ((StateDiagram_new (\<lambda>_. 0))\<lparr>states := (\<lambda>_. [])(3 := [(98, 3), (98, 4)])\<rparr>) \<and>
   execute_loop
     \<lparr>state_diagram = (StateDiagram_new (\<lambda>_. 0))\<lparr>states := (\<lambda>_. [])(3 := [(98, 3), (98, 4)])\<rparr>,
      q = 3, f = 4\<rparr> 3 ''b'' =
     Inr (\<lparr>state_diagram =
             (StateDiagram_new (\<lambda>_. 0))\<lparr>states := (\<lambda>_. [])(3 := [(98, 3), (98, 4)])\<rparr>,
           q = 3, f = 4\<rparr>, 4)"
  by (simp add: insertEdge_def StateDiagram_new_def getState_def in_bounds_def
      MAXVERT_def symbol_val_b)

text \<open>
  C6, amended. First-match-wins: for a source state of the table with two transitions on
  the same symbol and different targets, where the one inserted first (no earlier pair
  of the list has that symbol) does not lead back to the source state itself, a step on
  that symbol from the source state sets the current state to the target of the one
  inserted first.
\<close>

theorem first_match_wins:
  assumes "in_bounds src"
    and "states (state_diagram d) src =
           pre @ (symbol_val s, t1) # mid @ (symbol_val s, t2) # post"
    and "\<forall>p\<in>set pre. fst p \<noteq> symbol_val s"
    and "t1 \<noteq> t2"
    and "t1 \<noteq> src"
  shows "execute_loop d src [s] = Inr (d, t1)"
proof -
  have "\<forall>p\<in>set pre. \<not> (fst p = symbol_val s \<and> snd p \<noteq> src)"
    using assms(3) by blast
  from execute_scan_first [OF this assms(5), of "mid @ (symbol_val s, t2) # post"]
  show ?thesis using assms(1,2) by (simp add: getState_def)
qed

theorem first_match_wins_witness:
  "in_bounds 1 \<and>
   states (state_diagram ordered_dfa) 1 =
     [(98, 5)] @ (symbol_val CHR ''a'', 2) # [(98, 1)] @ (symbol_val CHR ''a'', 3) # [] \<and>
   execute_loop ordered_dfa 1 ''a'' = Inr (ordered_dfa, 2)"
proof -
  have h1: "in_bounds 1" by (simp add: in_bounds_def MAXVERT_def)
  have h2: "states (state_diagram ordered_dfa) 1 =
     [(98, 5)] @ (symbol_val CHR ''a'', 2) # [(98, 1)] @ (symbol_val CHR ''a'', 3) # []"
    by (simp add: ordered_dfa_def symbol_val_a)
  have h3: "\<forall>p\<in>set [(98, 5)]. fst p \<noteq> symbol_val CHR ''a''"
    by (simp add: symbol_val_a)
  have h4: "(2::int) \<noteq> 3" and h5: "(2::int) \<noteq> 1" by simp_all
  from first_match_wins [OF h1 h2 h3 h4 h5] h1 h2 show ?thesis by blast
qed

section \<open>Evaluation: whole inputs\<close>

text \<open>
  C7. On the automaton with initial state 1, accepting state 2 and the transitions
  1: (97,2),(98,3); 2: (97,1); 3: (98,1), \<open>execute\<close> returns true on "a", true on "ab",
  false on "b" and false on the empty input.
\<close>

theorem roundtrip_scenario:
  "execute roundtrip_dfa ''a'' = Inr (True, roundtrip_dfa) \<and>
   execute roundtrip_dfa ''ab'' = Inr (True, roundtrip_dfa) \<and>
   execute roundtrip_dfa ''b'' = Inr (False, roundtrip_dfa) \<and>
   execute roundtrip_dfa [] = Inr (False, roundtrip_dfa)"
  by (simp add: execute_def roundtrip_dfa_def roundtrip_diagram_def getState_def
      in_bounds_def MAXVERT_def symbol_val_a symbol_val_b)

text \<open>
  C2 as stated does not hold: the builder accepts the description with the single
  transition \<open>1: 97 1001\<close> (the source state 1 is an index of the array, the target is
  not checked), and on the input "aa" the second symbol looks up \<open>states[1001]\<close>,
  outside the array: \<open>execute\<close> has no defined result.
\<close>

theorem execute_beyond_capacity:
  "build_dfa_from_file zero_init beyond_text = Inr beyond_dfa \<and>
   execute beyond_dfa ''aa'' = Inl OutOfBounds"
proof -
  have "build_dfa_from_file zero_init beyond_text = Inr beyond_dfa"
    by (simp add: builder_defs beyond_text_def beyond_dfa_def)
  moreover have "execute beyond_dfa ''aa'' = Inl OutOfBounds"
    by (simp add: execute_def beyond_dfa_def getState_def in_bounds_def MAXVERT_def
        symbol_val_a)
  ultimately show ?thesis by simp
qed

text \<open>
  C2, amended. \<open>execute\<close> is total on the automata within the capacity of the table:
  when the initial state and the target of every recorded transition lie in
  \<open>0 .. MAXVERT\<close>, \<open>execute\<close> returns a boolean on every finite input and leaves the
  automaton as it was. The run ends, within the capacity, in the state that the
  specification's steps give, and a symbol without a pair that is taken is handled by
  leaving the current state unchanged.
\<close>

theorem execute_total:
  assumes "within_capacity d"
  shows "(\<exists>b. execute d inp = Inr (b, d)) \<and>
         execute_loop d (q d) inp = Inr (d, final_state d (q d) inp) \<and>
         in_bounds (final_state d (q d) inp) \<and>
         (\<forall>cur s. in_bounds cur \<and>
            (\<forall>p\<in>set (states (state_diagram d) cur). \<not> (fst p = symbol_val s \<and> snd p \<noteq> cur))
            \<longrightarrow> execute_loop d cur [s] = Inr (d, cur))"
proof (intro conjI allI impI)
  from execute_loop_within_capacity [OF assms, of inp]
  show "execute_loop d (q d) inp = Inr (d, final_state d (q d) inp)"
    and "in_bounds (final_state d (q d) inp)" by blast+
  then show "\<exists>b. execute d inp = Inr (b, d)" by (simp add: execute_def)
next
  fix cur s
  assume "in_bounds cur \<and>
    (\<forall>p\<in>set (states (state_diagram d) cur). \<not> (fst p = symbol_val s \<and> snd p \<noteq> cur))"
  then show "execute_loop d cur [s] = Inr (d, cur)"
    by (intro execute_loop_miss) blast+
qed

theorem execute_total_witness:
  "within_capacity roundtrip_dfa \<and>
   (\<exists>b. execute roundtrip_dfa ''abcba'' = Inr (b, roundtrip_dfa)) \<and>
   in_bounds 2 \<and> execute_loop roundtrip_dfa 2 ''c'' = Inr (roundtrip_dfa, 2)"
proof -
  have h: "in_bounds 2" by (simp add: in_bounds_def MAXVERT_def)
  have m: "\<forall>p\<in>set (states (state_diagram roundtrip_dfa) 2).
      \<not> (fst p = symbol_val CHR ''c'' \<and> snd p \<noteq> 2)"
    by (simp add: roundtrip_dfa_def roundtrip_diagram_def symbol_val_c)
  from execute_total [OF roundtrip_within_capacity, of "''abcba''"]
    roundtrip_within_capacity h m
  show ?thesis by blast
qed

text \<open>
  C4 as stated does not hold for every automaton: the description with initial state
  1, accepting state 1001 and the transition \<open>1: 97 1001\<close> is built, and on the input
  "aa" the state after the whole input is the accepting state 1001, yet \<open>execute\<close>
  does not return true: the second symbol looks up \<open>states[1001]\<close>, outside the array.
\<close>

theorem accepting_state_beyond_capacity:
  "build_dfa_from_file zero_init beyond_accept_text = Inr beyond_accept_dfa \<and>
   final_state beyond_accept_dfa (q beyond_accept_dfa) ''aa'' = f beyond_accept_dfa \<and>
   execute beyond_accept_dfa ''aa'' = Inl OutOfBounds"
proof -
  have "build_dfa_from_file zero_init beyond_accept_text = Inr beyond_accept_dfa"
    by (simp add: builder_defs beyond_accept_text_def beyond_accept_dfa_def)
  moreover have "final_state beyond_accept_dfa (q beyond_accept_dfa) ''aa'' = f beyond_accept_dfa"
    by (simp add: final_state_def next_state_def taken_def beyond_accept_dfa_def symbol_val_a)
  moreover have "execute beyond_accept_dfa ''aa'' = Inl OutOfBounds"
    by (simp add: execute_def beyond_accept_dfa_def getState_def in_bounds_def MAXVERT_def
        symbol_val_a)
  ultimately show ?thesis by simp
qed

text \<open>
  C4, amended. For every automaton within the capacity of the table and every input,
  \<open>execute\<close> returns true if and only if the state reached after consuming the entire
  input is the accepting state: it returns the comparison of \<open>final_state\<close>, the fold of
  the step over all symbols, with \<open>f\<close>. Nothing ends the run early: after every prefix
  \<open>s1\<close> of the input the loop is in the state that \<open>s1\<close> leads to, and it goes on to
  consume the rest from there. Beyond the capacity, a call that returns still returns
  that comparison.
\<close>

theorem accepts_iff_final_state:
  "(within_capacity d \<longrightarrow>
      execute d inp = Inr (final_state d (q d) inp = f d, d) \<and>
      (execute d inp = Inr (True, d) \<longleftrightarrow> final_state d (q d) inp = f d) \<and>
      (\<forall>s1 s2. inp = s1 @ s2 \<longrightarrow>
         execute_loop d (q d) s1 = Inr (d, final_state d (q d) s1) \<and>
         execute_loop d (final_state d (q d) s1) s2 = Inr (d, final_state d (q d) inp))) \<and>
   (\<forall>b d'. execute d inp = Inr (b, d') \<longrightarrow> (b \<longleftrightarrow> final_state d (q d) inp = f d))"
proof -
  have ret: "b \<longleftrightarrow> final_state d (q d) inp = f d" if ex: "execute d inp = Inr (b, d')" for b d'
  proof -
    from ex obtain cur' where run: "execute_loop d (q d) inp = Inr (d', cur')"
      and b: "b = (cur' = f d')"
      by (auto simp: execute_Inr)
    from execute_loop_object [OF run] execute_loop_final_state [OF run] b
    show ?thesis by simp
  qed
  have tot: "execute d inp = Inr (final_state d (q d) inp = f d, d)" if wc: "within_capacity d"
    using execute_loop_within_capacity [OF wc, of inp] by (simp add: execute_def)
  have iff: "execute d inp = Inr (True, d) \<longleftrightarrow> final_state d (q d) inp = f d"
    if wc: "within_capacity d"
    using tot [OF wc] by simp
  have pre: "execute_loop d (q d) s1 = Inr (d, final_state d (q d) s1) \<and>
         execute_loop d (final_state d (q d) s1) s2 = Inr (d, final_state d (q d) inp)"
    if wc: "within_capacity d" and i: "inp = s1 @ s2" for s1 s2
  proof -
    from execute_loop_within_capacity [OF wc, of s1]
    have r1: "execute_loop d (q d) s1 = Inr (d, final_state d (q d) s1)" by blast
    from execute_loop_within_capacity [OF wc, of "s1 @ s2"]
    have "execute_loop d (q d) (s1 @ s2) = Inr (d, final_state d (q d) (s1 @ s2))" by blast
    then have "execute_loop d (final_state d (q d) s1) s2 = Inr (d, final_state d (q d) (s1 @ s2))"
      by (simp only: execute_loop_append_aux r1 sum.case prod.case)
    with r1 show ?thesis by (simp only: i simp_thms)
  qed
  show ?thesis
  proof (intro conjI allI impI)
    assume "within_capacity d"
    then show "execute d inp = Inr (final_state d (q d) inp = f d, d)" by (rule tot)
  next
    assume "within_capacity d"
    then show "execute d inp = Inr (True, d) \<longleftrightarrow> final_state d (q d) inp = f d" by (rule iff)
  next
    fix s1 s2 assume "within_capacity d" "inp = s1 @ s2"
    then show "execute_loop d (q d) s1 = Inr (d, final_state d (q d) s1)"
      using pre by blast
  next
    fix s1 s2 assume "within_capacity d" "inp = s1 @ s2"
    then show "execute_loop d (final_state d (q d) s1) s2 = Inr (d, final_state d (q d) inp)"
      using pre by blast
  next
    fix b d'
    assume "execute d inp = Inr (b, d')"
    then show "b \<longleftrightarrow> final_state d (q d) inp = f d" by (rule ret)
  qed
qed

theorem accepts_iff_final_state_witness:
  "within_capacity roundtrip_dfa \<and>
   execute roundtrip_dfa ''a'' = Inr (True, roundtrip_dfa) \<and>
   final_state roundtrip_dfa (q roundtrip_dfa) ''a'' = f roundtrip_dfa \<and>
   execute roundtrip_dfa ''aa'' = Inr (False, roundtrip_dfa) \<and>
   final_state roundtrip_dfa (q roundtrip_dfa) ''aa'' \<noteq> f roundtrip_dfa"
  using accepts_iff_final_state [of roundtrip_dfa "''a''"]
    accepts_iff_final_state [of roundtrip_dfa "''aa''"]
    roundtrip_within_capacity execute_roundtrip_a execute_roundtrip_aa
  by simp

text \<open>
  C10. The loop composes over concatenation: the run on \<open>s1 @ s2\<close> from a state is the
  run on \<open>s2\<close> from the state that the run on \<open>s1\<close> reaches (and is undefined when that
  run is); hence \<open>execute\<close> on \<open>s1 @ s2\<close> compares the final state of the composed run
  with the accepting state.
\<close>

theorem execute_loop_append:
  "execute_loop d current (s1 @ s2) =
     (case execute_loop d current s1 of
        Inl e \<Rightarrow> Inl e
      | Inr (d', mid) \<Rightarrow> execute_loop d' mid s2) \<and>
   execute d (s1 @ s2) =
     (case execute_loop d (q d) s1 of
        Inl e \<Rightarrow> Inl e
      | Inr (d', mid) \<Rightarrow>
          (case execute_loop d' mid s2 of
             Inl e \<Rightarrow> Inl e
           | Inr (d'', fin) \<Rightarrow> Inr (fin = f d'', d'')))"
  by (simp add: execute_def execute_loop_append_aux split: sum.splits prod.splits)

section \<open>Evaluation: the object\<close>

text \<open>
  C9. Frame: a call of \<open>execute\<close> that returns leaves the object as it was; the outgoing
  list of every state, the initial state and the accepting state are unchanged.
\<close>

theorem execute_frame:
  assumes "execute d inp = Inr (r, d')"
  shows "states (state_diagram d') = states (state_diagram d) \<and> q d' = q d \<and> f d' = f d \<and>
         d' = d"
proof -
  from assms obtain cur where "execute_loop d (q d) inp = Inr (d', cur)"
    by (auto simp: execute_Inr)
  from execute_loop_object [OF this] show ?thesis by simp
qed

theorem execute_frame_witness:
  "execute roundtrip_dfa ''a'' = Inr (True, roundtrip_dfa) \<and>
   states (state_diagram roundtrip_dfa) = states (state_diagram roundtrip_dfa) \<and>
   q roundtrip_dfa = q roundtrip_dfa \<and> f roundtrip_dfa = f roundtrip_dfa"
  using execute_frame [OF execute_roundtrip_a] execute_roundtrip_a by simp

text \<open>
  C8. Determinism: a second call of \<open>execute\<close> with the same input, on the automaton as
  the first call left it, returns the same boolean.
\<close>

theorem execute_deterministic:
  assumes "execute d inp = Inr (r1, d1)"
  shows "execute d1 inp = Inr (r1, d1)"
proof -
  from assms obtain cur where "execute_loop d (q d) inp = Inr (d1, cur)"
    by (auto simp: execute_Inr)
  from execute_loop_object [OF this] have "d1 = d" .
  with assms show ?thesis by simp
qed

theorem execute_deterministic_witness:
  "\<exists>r1 d1. execute roundtrip_dfa ''aa'' = Inr (r1, d1) \<and> execute d1 ''aa'' = Inr (r1, d1)"
  using execute_deterministic [OF execute_roundtrip_aa] execute_roundtrip_aa by blast

section \<open>The builder on a line without a colon\<close>

text \<open>
  C3 as stated does not hold: on the description whose transition line is \<open>1 97 2\<close> the
  builder reports no format error. \<open>std::stoi\<close> reads 1 from the whole line, and the
  builder then reads \<open>split_at_colon[1]\<close> of a one-element vector, an access outside the
  vector that nothing checks.
\<close>

theorem missing_colon_out_of_bounds:
  "split missing_colon_text newline ! 2 = ''1 97 2'' \<and>
   stoi ''1 97 2'' = Inr 1 \<and>
   split ''1 97 2'' CHR '':'' = [''1 97 2''] \<and>
   build_dfa_from_file zero_init missing_colon_text = Inl OutOfBounds"
proof -
  have "stoi ''1 97 2'' = Inr 1"
    by (simp add: stoi_def isspace_def isdigit_def digits_val_def INT_MIN_def INT_MAX_def)
  moreover have "split ''1 97 2'' CHR '':'' = [''1 97 2'']"
    by (simp add: split_def)
  moreover have "build_dfa_from_file zero_init missing_colon_text = Inl OutOfBounds"
    by (simp add: builder_defs missing_colon_text_def)
  ultimately show ?thesis by (simp add: split_missing_colon_text)
qed

text \<open>
  C3, amended. The builder has no format error. A description with a transition line
  (any line after the second) that lacks the colon is never built into an automaton:
  processing such a line ends in the exception of \<open>std::stoi\<close> when the line does not
  start with an integer, and otherwise in an element access outside the split vector
  (\<open>split_at_colon[0]\<close> for an empty line, \<open>split_at_colon[1]\<close> else).
\<close>

theorem missing_colon_fails:
  "(2 \<le> i \<and> i < length (split contents newline) \<and>
    CHR '':'' \<notin> set (split contents newline ! i)
      \<longrightarrow> (\<exists>e. build_dfa_from_file ind contents = Inl e)) \<and>
   (bs_counter st \<noteq> 0 \<and> bs_counter st \<noteq> 1 \<and> CHR '':'' \<notin> set str
      \<longrightarrow> build_line st str =
            Inl (if str = [] then OutOfBounds
                 else case stoi str of Inl e \<Rightarrow> e | Inr state \<Rightarrow> OutOfBounds))"
proof (intro conjI impI)
  assume a: "2 \<le> i \<and> i < length (split contents newline) \<and>
    CHR '':'' \<notin> set (split contents newline ! i)"
  let ?st0 = "\<lparr>bs_state_diagram = StateDiagram_new (ind_degree ind),
                 bs_dfa = \<lparr>state_diagram = StateDiagram_new (ind_degree ind),
                           q = ind_q ind, f = ind_f ind\<rparr>,
                 bs_counter = 0,
                 bs_nvertices = ind_nvertices ind,
                 bs_nedges = ind_nedges ind\<rparr>"
  from a have "\<exists>e. build_lines ?st0 (split contents newline) = Inl e"
    by (intro build_lines_no_colon [of i]) simp_all
  then show "\<exists>e. build_dfa_from_file ind contents = Inl e"
    by (auto simp: build_dfa_from_file_def and_then_def)
next
  assume "bs_counter st \<noteq> 0 \<and> bs_counter st \<noteq> 1 \<and> CHR '':'' \<notin> set str"
  then show "build_line st str =
            Inl (if str = [] then OutOfBounds
                 else case stoi str of Inl e \<Rightarrow> e | Inr state \<Rightarrow> OutOfBounds)"
    by (simp add: build_line_no_colon)
qed

theorem missing_colon_fails_witness:
  "(2::nat) \<le> 2 \<and> 2 < length (split missing_colon_text newline) \<and>
   CHR '':'' \<notin> set (split missing_colon_text newline ! 2) \<and>
   (\<exists>e. build_dfa_from_file zero_init missing_colon_text = Inl e)"
proof -
  have h: "(2::nat) \<le> 2 \<and> 2 < length (split missing_colon_text newline) \<and>
      CHR '':'' \<notin> set (split missing_colon_text newline ! 2)"
    by (simp add: split_missing_colon_text)
  from missing_colon_fails [of 2 missing_colon_text zero_init] h show ?thesis by blast
qed

end
